theory Spec2Isabelle
  imports Main
begin

section \<open>The CSS selector builder of 05-objects-tasks.js\<close>

text \<open>
  The embedding covers class \<open>MyElement\<close> (lines 117-179) and the facade object
  \<open>cssSelectorBuilder\<close> (lines 181-199). Fragments are JavaScript objects with
  identity: a chaining method stores the new fragment in the \<open>child\<close> field of the
  fragment it is called on, and the new fragment keeps a reference to that fragment
  in \<open>parent\<close>. Objects therefore live in an explicit heap, a reference is an index
  into it, and every operation that allocates or assigns takes the heap and returns
  the new one.
\<close>

subsection \<open>Data\<close>

text \<open>
  The field \<open>type\<close> holds one of the six tag strings \<open>'elem'\<close>, \<open>'id'\<close>,
  \<open>'class'\<close>, \<open>'attr'\<close>, \<open>'pseudoClass'\<close>, \<open>'pseudoElement'\<close>: the class is not
  exported and each of its twelve construction sites passes one of these literals.
\<close>

datatype kind = K_elem | K_id | K_class | K_attr | K_pseudoClass | K_pseudoElement

text \<open>
  \<open>Error msg\<close> is \<open>throw new Error(msg)\<close>. \<open>TypeError\<close> is what JavaScript
  raises for a method call on something that is no object: on \<open>undefined\<close>, or here
  on a reference outside the heap (no reference handed out by the builder is of that
  sort).
\<close>

datatype error = Error string | TypeError

text \<open>
  The fields of a \<open>MyElement\<close>, in the order the constructor assigns them. \<open>child\<close>
  starts as the empty object \<open>{}\<close>, here \<open>None\<close>; \<open>parent\<close> is \<open>undefined\<close>
  (\<open>None\<close>) for a fragment made by the facade.
\<close>

record MyElement =
  type_f :: kind
  value_f :: string
  sym_f :: string
  end_f :: string
  child :: "nat option"
  parent :: "nat option"
  validError :: string
  partsError :: string

type_synonym heap = "MyElement list"

text \<open>A selector is a fragment (by reference) or the object \<open>combine\<close> returns, whose
  \<open>stringify\<close> closure captures the two selectors and the combinator.\<close>

datatype selector = Fragment nat | Combined selector string selector

subsection \<open>The constructor\<close>

definition validError_msg :: string where
  "validError_msg =
     ''Element, id and pseudo-element should not occur more then one time inside the selector''"

definition partsError_msg :: string where
  "partsError_msg =
     ''Selector parts should be arranged in the following order: element, id, class, attribute, pseudo-class, pseudo-element''"

definition MyElement_constructor :: "string \<Rightarrow> kind \<Rightarrow> nat option \<Rightarrow> MyElement" where
  "MyElement_constructor v t p =
     \<lparr> type_f = t,
       value_f = v,
       sym_f = (if t = K_elem then ''''
                else if t = K_id then ''#''
                else if t = K_class then ''.''
                else if t = K_attr then ''[''
                else if t = K_pseudoClass then '':''
                else if t = K_pseudoElement then ''::''
                else ''''),
       end_f = (if t = K_attr then '']'' else ''''),
       child = None,
       parent = p,
       validError = validError_msg,
       partsError = partsError_msg \<rparr>"

text \<open>\<open>new\<close>: the object is placed at the next free address.\<close>

definition alloc :: "heap \<Rightarrow> MyElement \<Rightarrow> heap \<times> nat" where
  "alloc h obj = (h @ [obj], length h)"

text \<open>\<open>this.child = new MyElement(val, t, this); return this.child;\<close>\<close>

definition new_child :: "heap \<Rightarrow> nat \<Rightarrow> string \<Rightarrow> kind \<Rightarrow> heap \<times> nat" where
  "new_child h this v t =
     (case alloc h (MyElement_constructor v t (Some this)) of
        (h1, c) \<Rightarrow> (h1[this := (h1 ! this)\<lparr>child := Some c\<rparr>], c))"

subsection \<open>The chaining methods of a fragment\<close>

text \<open>
  \<open>element()\<close> declares no parameter: an argument passed to it is dropped. Its
  second test, \<open>this.type !== 'elem'\<close>, is the negation of the first, so the
  \<open>return this.type\<close> after the two \<open>throw\<close>s is never reached and has no branch
  here.
\<close>

definition MyElement_element :: "heap \<Rightarrow> nat \<Rightarrow> string \<Rightarrow> error + heap \<times> nat" where
  "MyElement_element h this v =
     (if this < length h then
        if type_f (h ! this) = K_elem then Inl (Error (validError (h ! this)))
        else Inl (Error (partsError (h ! this)))
      else Inl TypeError)"

definition MyElement_id :: "heap \<Rightarrow> nat \<Rightarrow> string \<Rightarrow> error + heap \<times> nat" where
  "MyElement_id h this v =
     (if this < length h then
        if type_f (h ! this) = K_id then Inl (Error (validError (h ! this)))
        else if type_f (h ! this) \<noteq> K_elem then Inl (Error (partsError (h ! this)))
        else Inr (new_child h this v K_id)
      else Inl TypeError)"

definition MyElement_class :: "heap \<Rightarrow> nat \<Rightarrow> string \<Rightarrow> error + heap \<times> nat" where
  "MyElement_class h this v =
     (if this < length h then
        if type_f (h ! this) = K_attr \<or> type_f (h ! this) = K_pseudoClass
           \<or> type_f (h ! this) = K_pseudoElement
        then Inl (Error (partsError (h ! this)))
        else Inr (new_child h this v K_class)
      else Inl TypeError)"

definition MyElement_attr :: "heap \<Rightarrow> nat \<Rightarrow> string \<Rightarrow> error + heap \<times> nat" where
  "MyElement_attr h this v =
     (if this < length h then
        if type_f (h ! this) = K_pseudoClass \<or> type_f (h ! this) = K_pseudoElement
        then Inl (Error (partsError (h ! this)))
        else Inr (new_child h this v K_attr)
      else Inl TypeError)"

definition MyElement_pseudoClass :: "heap \<Rightarrow> nat \<Rightarrow> string \<Rightarrow> error + heap \<times> nat" where
  "MyElement_pseudoClass h this v =
     (if this < length h then
        if type_f (h ! this) = K_pseudoElement then Inl (Error (partsError (h ! this)))
        else Inr (new_child h this v K_pseudoClass)
      else Inl TypeError)"

definition MyElement_pseudoElement :: "heap \<Rightarrow> nat \<Rightarrow> string \<Rightarrow> error + heap \<times> nat" where
  "MyElement_pseudoElement h this v =
     (if this < length h then
        if type_f (h ! this) = K_pseudoElement then Inl (Error (validError (h ! this)))
        else Inr (new_child h this v K_pseudoElement)
      else Inl TypeError)"

subsection \<open>Rendering\<close>

text \<open>
  \<open>stringify\<close> of a fragment follows the \<open>parent\<close> references. \<open>None\<close> stands for
  a call that gives no string: a recursion that does not end, or a reference that
  denotes no object.
\<close>

partial_function (option) MyElement_stringify :: "heap \<Rightarrow> nat \<Rightarrow> string option" where
  "MyElement_stringify h this =
     (if this < length h then
        Option.bind
          (case parent (h ! this) of
             Some p \<Rightarrow> MyElement_stringify h p
           | None \<Rightarrow> Some '''')
          (\<lambda>par. Some (par @ sym_f (h ! this) @ value_f (h ! this) @ end_f (h ! this)))
      else None)"

declare MyElement_stringify.simps [code]

subsection \<open>The facade\<close>

definition cssSelectorBuilder_element :: "heap \<Rightarrow> string \<Rightarrow> heap \<times> nat" where
  "cssSelectorBuilder_element h v = alloc h (MyElement_constructor v K_elem None)"

definition cssSelectorBuilder_id :: "heap \<Rightarrow> string \<Rightarrow> heap \<times> nat" where
  "cssSelectorBuilder_id h v = alloc h (MyElement_constructor v K_id None)"

definition cssSelectorBuilder_class :: "heap \<Rightarrow> string \<Rightarrow> heap \<times> nat" where
  "cssSelectorBuilder_class h v = alloc h (MyElement_constructor v K_class None)"

definition cssSelectorBuilder_attr :: "heap \<Rightarrow> string \<Rightarrow> heap \<times> nat" where
  "cssSelectorBuilder_attr h v = alloc h (MyElement_constructor v K_attr None)"

definition cssSelectorBuilder_pseudoClass :: "heap \<Rightarrow> string \<Rightarrow> heap \<times> nat" where
  "cssSelectorBuilder_pseudoClass h v = alloc h (MyElement_constructor v K_pseudoClass None)"

definition cssSelectorBuilder_pseudoElement :: "heap \<Rightarrow> string \<Rightarrow> heap \<times> nat" where
  "cssSelectorBuilder_pseudoElement h v = alloc h (MyElement_constructor v K_pseudoElement None)"

definition cssSelectorBuilder_combine :: "selector \<Rightarrow> string \<Rightarrow> selector \<Rightarrow> selector" where
  "cssSelectorBuilder_combine selector1 combinator selector2 =
     Combined selector1 combinator selector2"

text \<open>
  The eighth member of the facade object, line 198:
  \<^verbatim>\<open>stringify: () => `${this.element.stringify()}`\<close>.
  An arrow function has no \<open>this\<close> of its own: \<open>this\<close> is the one of the module
  body, which in a CommonJS module (the file assigns \<open>module.exports\<close>) is the
  initial exports object. The file gives that object no property; line 202 puts a new
  object in \<open>module.exports\<close> and leaves this one empty. \<open>module_this\<close> maps a
  property name to the reference it holds. Reading \<open>this.element\<close> gives
  \<open>undefined\<close>, and the call of \<open>stringify\<close> on it raises \<open>TypeError\<close>.
\<close>

definition module_this :: "string \<rightharpoonup> nat" where
  "module_this = Map.empty"

definition cssSelectorBuilder_stringify :: "heap \<Rightarrow> error + string option" where
  "cssSelectorBuilder_stringify h =
     (case module_this ''element'' of
        None \<Rightarrow> Inl TypeError
      | Some e \<Rightarrow> Inr (MyElement_stringify h e))"

text \<open>\<open>s.stringify()\<close> on either sort of selector.\<close>

fun stringify :: "heap \<Rightarrow> selector \<Rightarrow> string option" where
  "stringify h (Fragment a) = MyElement_stringify h a"
| "stringify h (Combined selector1 combinator selector2) =
     Option.bind (stringify h selector1) (\<lambda>s1.
     Option.bind (stringify h selector2) (\<lambda>s2.
       Some (s1 @ '' '' @ combinator @ '' '' @ s2)))"

subsection \<open>Calls by kind, and call chains\<close>

text \<open>The method of a fragment that appends a fragment of a given kind, and the
  facade function that starts a chain with one.\<close>

fun chain_call :: "kind \<Rightarrow> heap \<Rightarrow> nat \<Rightarrow> string \<Rightarrow> error + heap \<times> nat" where
  "chain_call K_elem = MyElement_element"
| "chain_call K_id = MyElement_id"
| "chain_call K_class = MyElement_class"
| "chain_call K_attr = MyElement_attr"
| "chain_call K_pseudoClass = MyElement_pseudoClass"
| "chain_call K_pseudoElement = MyElement_pseudoElement"

fun start_call :: "kind \<Rightarrow> heap \<Rightarrow> string \<Rightarrow> heap \<times> nat" where
  "start_call K_elem = cssSelectorBuilder_element"
| "start_call K_id = cssSelectorBuilder_id"
| "start_call K_class = cssSelectorBuilder_class"
| "start_call K_attr = cssSelectorBuilder_attr"
| "start_call K_pseudoClass = cssSelectorBuilder_pseudoClass"
| "start_call K_pseudoElement = cssSelectorBuilder_pseudoElement"

text \<open>\<open>e.m(v)\<close> where \<open>e\<close> is itself a call expression: an exception of \<open>e\<close>
  propagates, otherwise \<open>m\<close> runs on the fragment \<open>e\<close> returned.\<close>

fun then_call ::
  "error + heap \<times> nat \<Rightarrow> (heap \<Rightarrow> nat \<Rightarrow> string \<Rightarrow> error + heap \<times> nat) \<Rightarrow> string
     \<Rightarrow> error + heap \<times> nat" where
  "then_call (Inl e) m v = Inl e"
| "then_call (Inr (h, a)) m v = m h a v"

fun then_stringify :: "error + heap \<times> nat \<Rightarrow> error + string option" where
  "then_stringify (Inl e) = Inl e"
| "then_stringify (Inr (h, a)) = Inr (MyElement_stringify h a)"

text \<open>The heaps that calls of the facade and of the chaining methods can build,
  starting with no object. A call that throws leaves the heap as it was.\<close>

inductive reachable :: "heap \<Rightarrow> bool" where
  init: "reachable []"
| start: "reachable h \<Longrightarrow> reachable (fst (start_call k h v))"
| chain: "reachable h \<Longrightarrow> chain_call k h this v = Inr (h', c) \<Longrightarrow> reachable h'"

subsection \<open>The vocabulary of the specification\<close>

text \<open>The order rank of a kind: element, id, class, attribute, pseudo-class,
  pseudo-element.\<close>

fun rank :: "kind \<Rightarrow> nat" where
  "rank K_elem = 0"
| "rank K_id = 1"
| "rank K_class = 2"
| "rank K_attr = 3"
| "rank K_pseudoClass = 4"
| "rank K_pseudoElement = 5"

text \<open>The kinds that may occur once only.\<close>

definition non_repeatable :: "kind \<Rightarrow> bool" where
  "non_repeatable k = (k = K_elem \<or> k = K_id \<or> k = K_pseudoElement)"

text \<open>What the specification's rendering rule puts before and after a value.\<close>

fun prefix_of :: "kind \<Rightarrow> string" where
  "prefix_of K_elem = ''''"
| "prefix_of K_id = ''#''"
| "prefix_of K_class = ''.''"
| "prefix_of K_attr = ''[''"
| "prefix_of K_pseudoClass = '':''"
| "prefix_of K_pseudoElement = ''::''"

fun suffix_of :: "kind \<Rightarrow> string" where
  "suffix_of K_attr = '']''"
| "suffix_of k = ''''"

definition own_rendering :: "heap \<Rightarrow> nat \<Rightarrow> string" where
  "own_rendering h a =
     prefix_of (type_f (h ! a)) @ value_f (h ! a) @ suffix_of (type_f (h ! a))"

text \<open>
  The chain of a fragment: the references from its first fragment to itself, found by
  following \<open>parent\<close>. A parent is always an older object (lemma
  \<open>reachable_heap_ok\<close>); the test \<open>p < a\<close> is what lets the recursion end on
  every heap.
\<close>

function chain :: "heap \<Rightarrow> nat \<Rightarrow> nat list" where
  "chain h a =
     (case parent (h ! a) of
        None \<Rightarrow> [a]
      | Some p \<Rightarrow> (if p < a then chain h p @ [a] else [a]))"
  by pat_completeness auto
termination
  by (relation "measure snd") auto

declare chain.simps [simp del]

definition chain_kinds :: "heap \<Rightarrow> nat \<Rightarrow> kind list" where
  "chain_kinds h a = map (\<lambda>b. type_f (h ! b)) (chain h a)"

text \<open>
  The state of one object of a heap the builder can make: the rendering fields fit
  the kind, the two messages are the constructor's, and a parent is an older object
  whose kind the chaining rules let this kind follow.
\<close>

definition obj_ok :: "heap \<Rightarrow> nat \<Rightarrow> bool" where
  "obj_ok h a =
     (sym_f (h ! a) = prefix_of (type_f (h ! a)) \<and>
      end_f (h ! a) = suffix_of (type_f (h ! a)) \<and>
      validError (h ! a) = validError_msg \<and>
      partsError (h ! a) = partsError_msg \<and>
      (case parent (h ! a) of
         None \<Rightarrow> True
       | Some p \<Rightarrow> p < a \<and> rank (type_f (h ! p)) \<le> rank (type_f (h ! a)) \<and>
                  (if non_repeatable (type_f (h ! a)) then type_f (h ! p) \<noteq> type_f (h ! a)
                   else True)))"

definition heap_ok :: "heap \<Rightarrow> bool" where
  "heap_ok h = list_all (obj_ok h) [0..<length h]"

text \<open>A selector all of whose fragments are objects of the heap.\<close>

fun selector_in :: "heap \<Rightarrow> selector \<Rightarrow> bool" where
  "selector_in h (Fragment a) = (a < length h)"
| "selector_in h (Combined l c r) = (selector_in h l \<and> selector_in h r)"

subsection \<open>The heaps of the documented examples\<close>

text \<open>
  The heap after \<open>element('div').id('main').class('container').class('draggable')\<close>
  and the heap after \<open>element('tr').pseudoClass('nth-of-type(even)')\<close> followed by
  \<open>element('td').pseudoClass('nth-of-type(even)')\<close>, the calls of the comment above
  the class (lines 99-112); lemmas \<open>div_heap_built\<close> and \<open>rows_heap_built\<close> run
  the calls.
\<close>

definition div_heap :: heap where
  "div_heap =
     [(MyElement_constructor ''div'' K_elem None)\<lparr>child := Some 1\<rparr>,
      (MyElement_constructor ''main'' K_id (Some 0))\<lparr>child := Some 2\<rparr>,
      (MyElement_constructor ''container'' K_class (Some 1))\<lparr>child := Some 3\<rparr>,
      MyElement_constructor ''draggable'' K_class (Some 2)]"

definition rows_heap :: heap where
  "rows_heap =
     [(MyElement_constructor ''tr'' K_elem None)\<lparr>child := Some 1\<rparr>,
      MyElement_constructor ''nth-of-type(even)'' K_pseudoClass (Some 0),
      (MyElement_constructor ''td'' K_elem None)\<lparr>child := Some 3\<rparr>,
      MyElement_constructor ''nth-of-type(even)'' K_pseudoClass (Some 2)]"

section \<open>Basic facts\<close>

subsection \<open>What the calls compute\<close>

lemma new_child_eq:
  "this < length h \<Longrightarrow>
   new_child h this v t =
     (h[this := (h ! this)\<lparr>child := Some (length h)\<rparr>] @ [MyElement_constructor v t (Some this)],
      length h)"
  by (simp add: new_child_def alloc_def list_update_append nth_append)

lemma chain_call_eq:
  assumes "this < length h"
    and "validError (h ! this) = validError_msg"
    and "partsError (h ! this) = partsError_msg"
  shows "chain_call newKind h this v =
     (if non_repeatable newKind \<and> type_f (h ! this) = newKind then Inl (Error validError_msg)
      else if rank newKind < rank (type_f (h ! this)) then Inl (Error partsError_msg)
      else Inr (new_child h this v newKind))"
  using assms
  by (cases newKind; cases "type_f (h ! this)")
     (simp_all add: non_repeatable_def MyElement_element_def MyElement_id_def MyElement_class_def
        MyElement_attr_def MyElement_pseudoClass_def MyElement_pseudoElement_def)

lemma heap_ok_iff: "heap_ok h \<longleftrightarrow> (\<forall>a<length h. obj_ok h a)"
  by (auto simp: heap_ok_def list_all_iff)

lemma constructor_fields [simp]:
  "type_f (MyElement_constructor v t p) = t"
  "value_f (MyElement_constructor v t p) = v"
  "sym_f (MyElement_constructor v t p) = prefix_of t"
  "end_f (MyElement_constructor v t p) = suffix_of t"
  "child (MyElement_constructor v t p) = None"
  "parent (MyElement_constructor v t p) = p"
  "validError (MyElement_constructor v t p) = validError_msg"
  "partsError (MyElement_constructor v t p) = partsError_msg"
  by (cases t; simp add: MyElement_constructor_def)+

lemma start_call_eq: "start_call k h v = (h @ [MyElement_constructor v k None], length h)"
  by (cases k)
     (simp_all add: alloc_def cssSelectorBuilder_element_def cssSelectorBuilder_id_def
        cssSelectorBuilder_class_def cssSelectorBuilder_attr_def
        cssSelectorBuilder_pseudoClass_def cssSelectorBuilder_pseudoElement_def)

lemma chain_call_Inr:
  assumes "chain_call k h this v = Inr (h', c)"
  shows "this < length h \<and> (h', c) = new_child h this v k
         \<and> \<not> (non_repeatable k \<and> type_f (h ! this) = k)
         \<and> rank (type_f (h ! this)) \<le> rank k"
  using assms
  by (cases k; cases "type_f (h ! this)")
     (auto simp: non_repeatable_def MyElement_element_def MyElement_id_def MyElement_class_def
        MyElement_attr_def MyElement_pseudoClass_def MyElement_pseudoElement_def
        split: if_splits)

subsection \<open>The heaps the builder can make\<close>

lemma obj_okD:
  assumes "heap_ok h" "a < length h"
  shows "sym_f (h ! a) = prefix_of (type_f (h ! a))"
    and "end_f (h ! a) = suffix_of (type_f (h ! a))"
    and "validError (h ! a) = validError_msg"
    and "partsError (h ! a) = partsError_msg"
  using assms by (simp_all add: heap_ok_iff obj_ok_def)

lemma parent_okD:
  assumes "heap_ok h" "a < length h" "parent (h ! a) = Some p"
  shows "p < a"
    and "rank (type_f (h ! p)) \<le> rank (type_f (h ! a))"
    and "non_repeatable (type_f (h ! a)) \<Longrightarrow> type_f (h ! p) \<noteq> type_f (h ! a)"
  using assms by (auto simp: heap_ok_iff obj_ok_def split: if_splits)

lemma heap_ok_start:
  assumes "heap_ok h"
  shows "heap_ok (h @ [MyElement_constructor v k None])"
  unfolding heap_ok_iff
proof (intro allI impI)
  fix a assume "a < length (h @ [MyElement_constructor v k None])"
  then consider "a < length h" | "a = length h" by fastforce
  then show "obj_ok (h @ [MyElement_constructor v k None]) a"
  proof cases
    case 1
    with assms have "obj_ok h a" by (simp add: heap_ok_iff)
    with 1 show ?thesis
      by (auto simp: obj_ok_def nth_append split: option.splits)
  next
    case 2
    then show ?thesis by (simp add: obj_ok_def)
  qed
qed

lemma new_child_old:
  assumes "this < length h" "b < length h"
  shows "fst (new_child h this v k) ! b = (h ! b)\<lparr>child := child (fst (new_child h this v k) ! b)\<rparr>"
    and "b \<noteq> this \<Longrightarrow> fst (new_child h this v k) ! b = h ! b"
    and "child (fst (new_child h this v k) ! this) = Some (length h)"
  using assms by (simp_all add: new_child_eq nth_append nth_list_update)

lemma new_child_new:
  assumes "this < length h"
  shows "fst (new_child h this v k) ! length h = MyElement_constructor v k (Some this)"
    and "length (fst (new_child h this v k)) = Suc (length h)"
    and "snd (new_child h this v k) = length h"
  using assms by (simp_all add: new_child_eq nth_append)

lemma new_child_fields:
  assumes "this < length h" "b < length h"
  shows "type_f (fst (new_child h this v k) ! b) = type_f (h ! b)"
    and "value_f (fst (new_child h this v k) ! b) = value_f (h ! b)"
    and "sym_f (fst (new_child h this v k) ! b) = sym_f (h ! b)"
    and "end_f (fst (new_child h this v k) ! b) = end_f (h ! b)"
    and "parent (fst (new_child h this v k) ! b) = parent (h ! b)"
    and "validError (fst (new_child h this v k) ! b) = validError (h ! b)"
    and "partsError (fst (new_child h this v k) ! b) = partsError (h ! b)"
  using assms by (simp_all add: new_child_eq nth_append nth_list_update)

lemma heap_ok_new_child:
  assumes ok: "heap_ok h" and lt: "this < length h"
    and rep: "\<not> (non_repeatable k \<and> type_f (h ! this) = k)"
    and rk: "rank (type_f (h ! this)) \<le> rank k"
  shows "heap_ok (fst (new_child h this v k))"
  unfolding heap_ok_iff
proof (intro allI impI)
  fix a assume "a < length (fst (new_child h this v k))"
  with lt have "a < Suc (length h)" by (simp add: new_child_new)
  then consider "a < length h" | "a = length h" by fastforce
  then show "obj_ok (fst (new_child h this v k)) a"
  proof cases
    case 1
    with ok have a: "obj_ok h a" by (simp add: heap_ok_iff)
    show ?thesis
    proof (cases "parent (h ! a)")
      case None
      with a 1 lt show ?thesis by (simp add: obj_ok_def new_child_fields)
    next
      case (Some p)
      with a have "p < a" by (simp add: obj_ok_def)
      with 1 have "p < length h" by simp
      with a 1 lt Some show ?thesis by (simp add: obj_ok_def new_child_fields)
    qed
  next
    case 2
    with lt rep rk show ?thesis
      by (simp add: obj_ok_def new_child_new new_child_fields)
  qed
qed

lemma reachable_heap_ok: "reachable h \<Longrightarrow> heap_ok h"
proof (induction rule: reachable.induct)
  case init
  show ?case by (simp add: heap_ok_def)
next
  case (start h k v)
  then show ?case by (simp add: start_call_eq heap_ok_start)
next
  case (chain h k this v h' c)
  from chain_call_Inr[OF chain.hyps(2)] chain.IH
  have "heap_ok (fst (new_child h this v k))"
    by (intro heap_ok_new_child) auto
  moreover from chain_call_Inr[OF chain.hyps(2)] have "h' = fst (new_child h this v k)"
    by (metis fst_conv)
  ultimately show ?case by simp
qed

lemma stringify_unfold:
  "a < length h \<Longrightarrow>
   MyElement_stringify h a =
     Option.bind (case parent (h ! a) of Some p \<Rightarrow> MyElement_stringify h p | None \<Rightarrow> Some [])
       (\<lambda>par. Some (par @ sym_f (h ! a) @ value_f (h ! a) @ end_f (h ! a)))"
  by (subst MyElement_stringify.simps) simp

lemma stringify_frame:
  assumes ok: "heap_ok h" and len: "length h \<le> length h'"
    and same: "\<And>b. b < length h \<Longrightarrow>
        parent (h' ! b) = parent (h ! b) \<and> sym_f (h' ! b) = sym_f (h ! b) \<and>
        value_f (h' ! b) = value_f (h ! b) \<and> end_f (h' ! b) = end_f (h ! b)"
  shows "a < length h \<Longrightarrow> MyElement_stringify h' a = MyElement_stringify h a"
proof (induction a rule: less_induct)
  case (less a)
  from less.prems len have a': "a < length h'" by simp
  show ?case
  proof (cases "parent (h ! a)")
    case None
    with less.prems a' same[of a] show ?thesis by (simp add: stringify_unfold)
  next
    case (Some p)
    with ok less.prems have "p < a" by (rule parent_okD(1))
    with less.IH less.prems have "MyElement_stringify h' p = MyElement_stringify h p" by simp
    with Some less.prems a' same[of a] show ?thesis by (simp add: stringify_unfold)
  qed
qed

lemma chain_unfold:
  assumes "heap_ok h" "a < length h"
  shows "chain h a = (case parent (h ! a) of None \<Rightarrow> [a] | Some p \<Rightarrow> chain h p @ [a])"
  using parent_okD(1)[OF assms] by (subst chain.simps) (simp split: option.splits)

lemma stringify_closed_form:
  assumes ok: "heap_ok h"
  shows "a < length h \<Longrightarrow>
         MyElement_stringify h a = Some (concat (map (own_rendering h) (chain h a)))"
proof (induction a rule: less_induct)
  case (less a)
  have own: "sym_f (h ! a) @ value_f (h ! a) @ end_f (h ! a) = own_rendering h a"
    using obj_okD(1,2)[OF ok less.prems] by (simp add: own_rendering_def)
  show ?case
  proof (cases "parent (h ! a)")
    case None
    with less.prems own show ?thesis
      by (simp add: stringify_unfold chain_unfold[OF ok])
  next
    case (Some p)
    with ok less.prems have "p < a" by (rule parent_okD(1))
    with less.IH less.prems
    have "MyElement_stringify h p = Some (concat (map (own_rendering h) (chain h p)))" by simp
    with Some less.prems own show ?thesis
      by (simp add: stringify_unfold chain_unfold[OF ok])
  qed
qed

subsection \<open>Chains\<close>

lemma chain_shape:
  assumes ok: "heap_ok h"
  shows "a < length h \<Longrightarrow>
         chain h a \<noteq> [] \<and> last (chain h a) = a \<and> (\<forall>b\<in>set (chain h a). b \<le> a) \<and>
         parent (h ! hd (chain h a)) = None \<and>
         (\<forall>i. Suc i < length (chain h a) \<longrightarrow>
              parent (h ! (chain h a ! Suc i)) = Some (chain h a ! i))"
proof (induction a rule: less_induct)
  case (less a)
  show ?case
  proof (cases "parent (h ! a)")
    case None
    with less.prems show ?thesis by (simp add: chain_unfold[OF ok])
  next
    case (Some p)
    with ok less.prems have pa: "p < a" by (rule parent_okD(1))
    with less.prems have "p < length h" by simp
    with less.IH pa
    have ne: "chain h p \<noteq> []" and la: "last (chain h p) = p"
      and le: "\<forall>b\<in>set (chain h p). b \<le> p"
      and hd: "parent (h ! hd (chain h p)) = None"
      and links: "\<And>i. Suc i < length (chain h p) \<Longrightarrow>
              parent (h ! (chain h p ! Suc i)) = Some (chain h p ! i)"
      by blast+
    have eq: "chain h a = chain h p @ [a]"
      using Some less.prems by (simp add: chain_unfold[OF ok])
    have "parent (h ! ((chain h p @ [a]) ! Suc i)) = Some ((chain h p @ [a]) ! i)"
      if "Suc i < length (chain h p @ [a])" for i
    proof (cases "Suc i < length (chain h p)")
      case True
      with links[OF True] show ?thesis by (simp add: nth_append)
    next
      case False
      with that have i: "Suc i = length (chain h p)" by simp
      then have "chain h p ! i = last (chain h p)"
        using ne by (metis diff_Suc_1 last_conv_nth)
      with i la Some show ?thesis by (simp add: nth_append)
    qed
    with ne la le hd pa show ?thesis
      unfolding eq by (auto simp: hd_append)
  qed
qed

lemma rank_inj: "rank k = rank k' \<Longrightarrow> k = k'"
  by (cases k; cases k') simp_all

lemma chain_kinds_ordered:
  assumes ok: "heap_ok h"
  shows "a < length h \<Longrightarrow>
         sorted (map rank (chain_kinds h a)) \<and>
         (\<forall>k\<in>set (chain_kinds h a). rank k \<le> rank (type_f (h ! a))) \<and>
         (\<forall>k. non_repeatable k \<longrightarrow> count_list (chain_kinds h a) k \<le> 1)"
proof (induction a rule: less_induct)
  case (less a)
  show ?case
  proof (cases "parent (h ! a)")
    case None
    with less.prems show ?thesis by (simp add: chain_kinds_def chain_unfold[OF ok])
  next
    case (Some p)
    with ok less.prems have pa: "p < a" by (rule parent_okD(1))
    with less.prems have "p < length h" by simp
    with less.IH pa
    have srt: "sorted (map rank (chain_kinds h p))"
      and ub: "\<And>k. k \<in> set (chain_kinds h p) \<Longrightarrow> rank k \<le> rank (type_f (h ! p))"
      and cnt: "\<And>k. non_repeatable k \<Longrightarrow> count_list (chain_kinds h p) k \<le> 1"
      by blast+
    have rk: "rank (type_f (h ! p)) \<le> rank (type_f (h ! a))"
      using ok less.prems Some by (rule parent_okD(2))
    have eq: "chain_kinds h a = chain_kinds h p @ [type_f (h ! a)]"
      using Some less.prems by (simp add: chain_kinds_def chain_unfold[OF ok])
    have ub': "rank k \<le> rank (type_f (h ! a))" if "k \<in> set (chain_kinds h p)" for k
      using ub[OF that] rk by simp
    have "count_list (chain_kinds h p @ [type_f (h ! a)]) k \<le> 1" if nr: "non_repeatable k" for k
    proof (cases "type_f (h ! a) = k")
      case False
      with cnt[OF nr] show ?thesis by simp
    next
      case True
      with nr have "type_f (h ! p) \<noteq> type_f (h ! a)"
        using parent_okD(3)[OF ok less.prems Some] by simp
      then have "rank (type_f (h ! p)) \<noteq> rank (type_f (h ! a))"
        using rank_inj[of "type_f (h ! p)" "type_f (h ! a)"] by blast
      with rk have lt: "rank (type_f (h ! p)) < rank (type_f (h ! a))" by simp
      have "k \<notin> set (chain_kinds h p)"
      proof
        assume "k \<in> set (chain_kinds h p)"
        from ub[OF this] lt True show False by simp
      qed
      then have "count_list (chain_kinds h p) k = 0" by (simp add: count_list_0_iff)
      then show ?thesis by simp
    qed
    with srt ub' show ?thesis
      unfolding eq by (auto simp: sorted_append)
  qed
qed

subsection \<open>Calls and rendering\<close>

lemma stringify_total:
  assumes "heap_ok h"
  shows "selector_in h s \<Longrightarrow> \<exists>str. stringify h s = Some str"
proof (induction s)
  case (Fragment a)
  then show ?case using stringify_closed_form[OF assms, of a] by simp
next
  case (Combined l c r)
  then obtain sl sr where "stringify h l = Some sl" "stringify h r = Some sr" by auto
  then show ?case by simp
qed

lemma chain_call_results:
  assumes "heap_ok h" and "this < length h"
  shows "chain_call k h this v = Inr (new_child h this v k)
         \<or> chain_call k h this v = Inl (Error validError_msg)
         \<or> chain_call k h this v = Inl (Error partsError_msg)"
  using chain_call_eq[OF assms(2) obj_okD(3,4)[OF assms], of k v] by presburger

lemma chain_call_render:
  assumes ok: "heap_ok h" and call: "chain_call k h f v = Inr (h', c)"
  shows "f < length h \<and> c = length h \<and> length h' = Suc (length h)
         \<and> child (h' ! f) = Some c
         \<and> (\<forall>a<length h. MyElement_stringify h' a = MyElement_stringify h a)
         \<and> (\<exists>s. MyElement_stringify h f = Some s
               \<and> MyElement_stringify h' c = Some (s @ prefix_of k @ v @ suffix_of k))"
proof -
  from chain_call_Inr[OF call] have f: "f < length h" and nc: "new_child h f v k = (h', c)"
    by simp_all
  from nc have h': "h' = fst (new_child h f v k)" and c: "c = length h"
    using new_child_new(3)[OF f, of v k] by simp_all
  have len: "length h' = Suc (length h)" unfolding h' by (rule new_child_new(2)[OF f])
  have ch: "child (h' ! f) = Some c" unfolding h' c by (rule new_child_old(3)[OF f f])
  have frame: "MyElement_stringify h' a = MyElement_stringify h a" if "a < length h" for a
    using ok _ _ that
  proof (rule stringify_frame)
    show "length h \<le> length h'" using len by simp
    show "parent (h' ! b) = parent (h ! b) \<and> sym_f (h' ! b) = sym_f (h ! b) \<and>
          value_f (h' ! b) = value_f (h ! b) \<and> end_f (h' ! b) = end_f (h ! b)"
      if "b < length h" for b
      unfolding h' using new_child_fields[OF f that] by simp
  qed
  from stringify_closed_form[OF ok f] obtain s where s: "MyElement_stringify h f = Some s"
    by blast
  have new: "h' ! c = MyElement_constructor v k (Some f)"
    unfolding h' c by (rule new_child_new(1)[OF f])
  have "MyElement_stringify h' c = Some (s @ prefix_of k @ v @ suffix_of k)"
    using frame[OF f] s new len c by (simp add: stringify_unfold)
  with f c len ch frame s show ?thesis by blast
qed

subsection \<open>The example heaps\<close>

lemmas call_defs =
  MyElement_element_def MyElement_id_def MyElement_class_def MyElement_attr_def
  MyElement_pseudoClass_def MyElement_pseudoElement_def
  cssSelectorBuilder_element_def cssSelectorBuilder_id_def cssSelectorBuilder_class_def
  cssSelectorBuilder_attr_def cssSelectorBuilder_pseudoClass_def
  cssSelectorBuilder_pseudoElement_def alloc_def new_child_def

lemma div_heap_built:
  "then_call (then_call (then_call (Inr (cssSelectorBuilder_element [] ''div''))
      MyElement_id ''main'') MyElement_class ''container'') MyElement_class ''draggable''
   = Inr (div_heap, 3)"
  by (simp add: call_defs div_heap_def MyElement_constructor_def)

lemma rows_heap_built:
  "then_call (Inr (cssSelectorBuilder_element
      (fst (projr (then_call (Inr (cssSelectorBuilder_element [] ''tr''))
         MyElement_pseudoClass ''nth-of-type(even)''))) ''td''))
      MyElement_pseudoClass ''nth-of-type(even)''
   = Inr (rows_heap, 3)"
  by (simp add: call_defs rows_heap_def MyElement_constructor_def)

lemma reachable_start: "reachable h \<Longrightarrow> reachable (h @ [MyElement_constructor v k None])"
  using reachable.start[of h k v] by (simp add: start_call_eq)

lemma reachable_new_child:
  assumes "reachable h" "this < length h"
    and "\<not> (non_repeatable k \<and> type_f (h ! this) = k)"
    and "rank (type_f (h ! this)) \<le> rank k"
  shows "reachable (fst (new_child h this v k))"
proof -
  from assms(1) have ok: "heap_ok h" by (rule reachable_heap_ok)
  from assms(2-4) obj_okD(3,4)[OF ok assms(2)]
  have "chain_call k h this v = Inr (fst (new_child h this v k), snd (new_child h this v k))"
    by (simp add: chain_call_eq not_less)
  with assms(1) show ?thesis by (rule reachable.chain)
qed

lemma reachable_div_heap: "reachable div_heap"
proof -
  let ?c0 = "MyElement_constructor ''div'' K_elem None"
  let ?c1 = "MyElement_constructor ''main'' K_id (Some 0)"
  let ?c2 = "MyElement_constructor ''container'' K_class (Some 1)"
  have "reachable ([] @ [?c0])"
    by (rule reachable_start) (rule reachable.init)
  then have "reachable (fst (new_child [?c0] 0 ''main'' K_id))"
    by (intro reachable_new_child) (simp_all add: non_repeatable_def)
  also have "fst (new_child [?c0] 0 ''main'' K_id) = [?c0\<lparr>child := Some 1\<rparr>, ?c1]"
    by (simp add: new_child_eq)
  finally have "reachable (fst (new_child [?c0\<lparr>child := Some 1\<rparr>, ?c1] 1 ''container'' K_class))"
    by (intro reachable_new_child) (simp_all add: non_repeatable_def)
  also have "fst (new_child [?c0\<lparr>child := Some 1\<rparr>, ?c1] 1 ''container'' K_class)
      = [?c0\<lparr>child := Some 1\<rparr>, ?c1\<lparr>child := Some 2\<rparr>, ?c2]"
    by (simp add: new_child_eq)
  finally have "reachable (fst (new_child
      [?c0\<lparr>child := Some 1\<rparr>, ?c1\<lparr>child := Some 2\<rparr>, ?c2] 2 ''draggable'' K_class))"
    by (intro reachable_new_child) (simp_all add: non_repeatable_def)
  also have "fst (new_child
      [?c0\<lparr>child := Some 1\<rparr>, ?c1\<lparr>child := Some 2\<rparr>, ?c2] 2 ''draggable'' K_class) = div_heap"
    by (simp add: new_child_eq div_heap_def)
  finally show ?thesis .
qed

lemma reachable_rows_heap: "reachable rows_heap"
proof -
  let ?c0 = "MyElement_constructor ''tr'' K_elem None"
  let ?c1 = "MyElement_constructor ''nth-of-type(even)'' K_pseudoClass (Some 0)"
  let ?c2 = "MyElement_constructor ''td'' K_elem None"
  have "reachable ([] @ [?c0])"
    by (rule reachable_start) (rule reachable.init)
  then have "reachable (fst (new_child [?c0] 0 ''nth-of-type(even)'' K_pseudoClass))"
    by (intro reachable_new_child) (simp_all add: non_repeatable_def)
  also have "fst (new_child [?c0] 0 ''nth-of-type(even)'' K_pseudoClass)
      = [?c0\<lparr>child := Some 1\<rparr>, ?c1]"
    by (simp add: new_child_eq)
  finally have "reachable ([?c0\<lparr>child := Some 1\<rparr>, ?c1] @ [?c2])"
    by (rule reachable_start)
  then have "reachable (fst (new_child [?c0\<lparr>child := Some 1\<rparr>, ?c1, ?c2] 2
      ''nth-of-type(even)'' K_pseudoClass))"
    by (intro reachable_new_child) (simp_all add: non_repeatable_def)
  also have "fst (new_child [?c0\<lparr>child := Some 1\<rparr>, ?c1, ?c2] 2
      ''nth-of-type(even)'' K_pseudoClass) = rows_heap"
    by (simp add: new_child_eq rows_heap_def)
  finally show ?thesis .
qed

lemma div_heap_nth:
  "length div_heap = 4"
  "div_heap ! 0 = (MyElement_constructor ''div'' K_elem None)\<lparr>child := Some 1\<rparr>"
  "div_heap ! Suc 0 = (MyElement_constructor ''main'' K_id (Some 0))\<lparr>child := Some 2\<rparr>"
  "div_heap ! 2 = (MyElement_constructor ''container'' K_class (Some 1))\<lparr>child := Some 3\<rparr>"
  "div_heap ! 3 = MyElement_constructor ''draggable'' K_class (Some 2)"
  by (simp_all add: div_heap_def)

lemma rows_heap_nth:
  "length rows_heap = 4"
  "rows_heap ! 0 = (MyElement_constructor ''tr'' K_elem None)\<lparr>child := Some 1\<rparr>"
  "rows_heap ! Suc 0 = MyElement_constructor ''nth-of-type(even)'' K_pseudoClass (Some 0)"
  "rows_heap ! 2 = (MyElement_constructor ''td'' K_elem None)\<lparr>child := Some 3\<rparr>"
  "rows_heap ! 3 = MyElement_constructor ''nth-of-type(even)'' K_pseudoClass (Some 2)"
  by (simp_all add: rows_heap_def)

lemma chain_div_heap:
  "chain div_heap 0 = [0]" "chain div_heap (Suc 0) = [0, Suc 0]"
  "chain div_heap 2 = [0, 1, 2]" "chain div_heap 3 = [0, 1, 2, 3]"
proof -
  note ok = reachable_heap_ok[OF reachable_div_heap]
  show 0: "chain div_heap 0 = [0]"
    by (simp add: chain_unfold[OF ok] div_heap_nth)
  show 1: "chain div_heap (Suc 0) = [0, Suc 0]"
    by (simp add: chain_unfold[OF ok, of "Suc 0"] 0 div_heap_nth)
  show 2: "chain div_heap 2 = [0, 1, 2]"
    by (simp add: chain_unfold[OF ok, of 2] 1 div_heap_nth)
  show "chain div_heap 3 = [0, 1, 2, 3]"
    by (simp add: chain_unfold[OF ok, of 3] 2 div_heap_nth)
qed

lemma stringify_rows_heap:
  "MyElement_stringify rows_heap (Suc 0) = Some ''tr:nth-of-type(even)''"
  "MyElement_stringify rows_heap 3 = Some ''td:nth-of-type(even)''"
  by (simp_all add: stringify_unfold rows_heap_nth)


section \<open>The claims\<close>

subsection \<open>The rule of a chaining call\<close>

text \<open>
  C1. Let \<open>self\<close> be any fragment of a heap the builder can make, and take the
  chaining call on it that appends a fragment of kind \<open>newKind\<close> with payload
  \<open>v\<close>. If \<open>newKind\<close> is element, id or pseudo-element and \<open>self\<close> has that
  kind, the call throws an \<open>Error\<close> with the message "Element, id and pseudo-element
  should not occur more then one time inside the selector". Otherwise, if the rank of
  the kind of \<open>self\<close> is strictly greater than the rank of \<open>newKind\<close>, it throws an
  \<open>Error\<close> with the message "Selector parts should be arranged in the following
  order: element, id, class, attribute, pseudo-class, pseudo-element". Otherwise it
  returns a reference to a new object (the next free address) of kind \<open>newKind\<close>
  that holds \<open>v\<close> and whose \<open>parent\<close> is \<open>self\<close>.
\<close>

theorem chaining_call_rule:
  assumes "reachable h" and "this < length h"
  shows "chain_call newKind h this v =
     (if (newKind = K_elem \<or> newKind = K_id \<or> newKind = K_pseudoElement)
         \<and> type_f (h ! this) = newKind
      then Inl (Error ''Element, id and pseudo-element should not occur more then one time inside the selector'')
      else if rank newKind < rank (type_f (h ! this))
      then Inl (Error ''Selector parts should be arranged in the following order: element, id, class, attribute, pseudo-class, pseudo-element'')
      else Inr (h[this := (h ! this)\<lparr>child := Some (length h)\<rparr>]
                  @ [\<lparr>type_f = newKind, value_f = v, sym_f = prefix_of newKind,
                      end_f = suffix_of newKind, child = None, parent = Some this,
                      validError = validError_msg, partsError = partsError_msg\<rparr>],
                length h))"
proof -
  from assms(1) have ok: "heap_ok h" by (rule reachable_heap_ok)
  have c: "MyElement_constructor v newKind (Some this) =
      \<lparr>type_f = newKind, value_f = v, sym_f = prefix_of newKind,
        end_f = suffix_of newKind, child = None, parent = Some this,
        validError = validError_msg, partsError = partsError_msg\<rparr>"
    by (cases newKind) (simp_all add: MyElement_constructor_def)
  show ?thesis
    using chain_call_eq[OF assms(2) obj_okD(3,4)[OF ok assms(2)], of newKind v] assms(2)
    by (simp add: non_repeatable_def new_child_eq c validError_msg_def partsError_msg_def)
qed

theorem chaining_call_rule_witness:
  "chain_call K_elem div_heap 0 ''span'' =
      Inl (Error ''Element, id and pseudo-element should not occur more then one time inside the selector'')
   \<and> chain_call K_id div_heap 2 ''other'' =
      Inl (Error ''Selector parts should be arranged in the following order: element, id, class, attribute, pseudo-class, pseudo-element'')
   \<and> chain_call K_attr div_heap 3 ''href'' =
      Inr (div_heap[3 := (div_heap ! 3)\<lparr>child := Some 4\<rparr>]
             @ [\<lparr>type_f = K_attr, value_f = ''href'', sym_f = ''['', end_f = '']'',
                 child = None, parent = Some 3,
                 validError = validError_msg, partsError = partsError_msg\<rparr>], 4)"
  using chaining_call_rule[OF reachable_div_heap, of 0 K_elem "''span''"]
    chaining_call_rule[OF reachable_div_heap, of 2 K_id "''other''"]
    chaining_call_rule[OF reachable_div_heap, of 3 K_attr "''href''"]
  by (simp add: div_heap_nth)

subsection \<open>The documented renderings\<close>

text \<open>
  C8. \<open>element('div').id('main').class('container').class('draggable').stringify()\<close>
  returns \<open>'div#main.container.draggable'\<close>, and
  \<open>element('a').attr('href$=".png"').pseudoClass('focus').stringify()\<close> returns
  \<open>'a[href$=".png"]:focus'\<close>.
\<close>

theorem documented_renderings:
  "then_stringify (then_call (then_call (then_call (Inr (cssSelectorBuilder_element [] ''div''))
      MyElement_id ''main'') MyElement_class ''container'') MyElement_class ''draggable'')
     = Inr (Some ''div#main.container.draggable'')
   \<and> then_stringify (then_call (then_call (Inr (cssSelectorBuilder_element [] ''a''))
      MyElement_attr ''href$=\".png\"'') MyElement_pseudoClass ''focus'')
     = Inr (Some ''a[href$=\".png\"]:focus'')"
  by (simp add: call_defs MyElement_constructor_def stringify_unfold)

subsection \<open>Rendering a chain\<close>

text \<open>
  C2. For every fragment \<open>a\<close> of a heap the builder can make, \<open>stringify()\<close>
  returns a string, and that string is the concatenation, with nothing in between, of
  prefix, stored value and suffix of the fragments of the chain of \<open>a\<close>, from the
  first fragment to \<open>a\<close>. The prefix is empty for element, \<open>#\<close> for id, \<open>.\<close>
  for class, \<open>[\<close> for attribute, \<open>:\<close> for pseudo-class and \<open>::\<close> for
  pseudo-element; the suffix is \<open>]\<close> for attribute and empty otherwise
  (\<open>prefix_of\<close>, \<open>suffix_of\<close>). The chain is the path of \<open>parent\<close> references: it
  ends in \<open>a\<close>, its first fragment has no parent, and each later fragment has the
  one before it as parent.
\<close>

theorem stringify_concatenates_chain:
  assumes "reachable h" and "a < length h"
  shows "MyElement_stringify h a =
           Some (concat (map (\<lambda>b. prefix_of (type_f (h ! b)) @ value_f (h ! b)
                                     @ suffix_of (type_f (h ! b))) (chain h a)))
         \<and> last (chain h a) = a
         \<and> parent (h ! hd (chain h a)) = None
         \<and> (\<forall>i. Suc i < length (chain h a) \<longrightarrow>
                parent (h ! (chain h a ! Suc i)) = Some (chain h a ! i))"
proof -
  from assms(1) have ok: "heap_ok h" by (rule reachable_heap_ok)
  have "own_rendering h = (\<lambda>b. prefix_of (type_f (h ! b)) @ value_f (h ! b)
                                     @ suffix_of (type_f (h ! b)))"
    by (rule ext) (simp add: own_rendering_def)
  with stringify_closed_form[OF ok assms(2)]
  have "MyElement_stringify h a =
           Some (concat (map (\<lambda>b. prefix_of (type_f (h ! b)) @ value_f (h ! b)
                                     @ suffix_of (type_f (h ! b))) (chain h a)))"
    by simp
  with chain_shape[OF ok assms(2)] show ?thesis by blast
qed

theorem stringify_concatenates_chain_witness:
  "MyElement_stringify div_heap 3 =
     Some (concat [[] @ ''div'' @ [], ''#'' @ ''main'' @ [], ''.'' @ ''container'' @ [],
                   ''.'' @ ''draggable'' @ []])
   \<and> MyElement_stringify (div_heap @ [MyElement_constructor ''href'' K_attr None]) 4 =
     Some (''['' @ ''href'' @ '']'')"
proof -
  have r: "reachable (div_heap @ [MyElement_constructor ''href'' K_attr None])"
    by (rule reachable_start) (rule reachable_div_heap)
  have c: "chain (div_heap @ [MyElement_constructor ''href'' K_attr None]) 4 = [4]"
    by (simp add: chain_unfold[OF reachable_heap_ok[OF r]] div_heap_nth nth_append)
  show ?thesis
    using stringify_concatenates_chain[OF reachable_div_heap, of 3, THEN conjunct1]
      stringify_concatenates_chain[OF r, of 4, THEN conjunct1]
    by (simp add: div_heap_nth chain_div_heap c nth_append)
qed

subsection \<open>A second element\<close>

text \<open>
  C3, as stated: \<open>.element(...)\<close> on a fragment whose chain contains an element
  fragment throws the duplicate-kind error, whichever fragment of the chain the call
  is made on. It fails on \<open>element('div').id('main').element('span')\<close>: the chain
  of the id fragment holds an element fragment, and the call throws the ordering
  error.
\<close>

theorem second_element_counterexample:
  "then_call (Inr (cssSelectorBuilder_element [] ''div'')) MyElement_id ''main''
     = Inr ([(MyElement_constructor ''div'' K_elem None)\<lparr>child := Some 1\<rparr>,
             MyElement_constructor ''main'' K_id (Some 0)], 1)
   \<and> chain_kinds [(MyElement_constructor ''div'' K_elem None)\<lparr>child := Some 1\<rparr>,
                   MyElement_constructor ''main'' K_id (Some 0)] 1 = [K_elem, K_id]
   \<and> MyElement_element [(MyElement_constructor ''div'' K_elem None)\<lparr>child := Some 1\<rparr>,
                         MyElement_constructor ''main'' K_id (Some 0)] 1 ''span''
       = Inl (Error ''Selector parts should be arranged in the following order: element, id, class, attribute, pseudo-class, pseudo-element'')
   \<and> MyElement_element [(MyElement_constructor ''div'' K_elem None)\<lparr>child := Some 1\<rparr>,
                         MyElement_constructor ''main'' K_id (Some 0)] 1 ''span''
       \<noteq> Inl (Error ''Element, id and pseudo-element should not occur more then one time inside the selector'')"
  by (simp add: call_defs chain_kinds_def chain.simps MyElement_constructor_def
        partsError_msg_def)

text \<open>
  C3, amended: \<open>.element(...)\<close> on a fragment whose chain contains an element
  fragment throws the duplicate-kind error when the fragment the call is made on is
  itself of kind element, and the ordering error when it is of any other kind.
\<close>

theorem second_element_error:
  assumes "reachable h" and "this < length h" and "K_elem \<in> set (chain_kinds h this)"
  shows "MyElement_element h this v =
     (if type_f (h ! this) = K_elem
      then Inl (Error ''Element, id and pseudo-element should not occur more then one time inside the selector'')
      else Inl (Error ''Selector parts should be arranged in the following order: element, id, class, attribute, pseudo-class, pseudo-element''))"
proof -
  from assms(1) have ok: "heap_ok h" by (rule reachable_heap_ok)
  from obj_okD(3,4)[OF ok assms(2)] assms(2) show ?thesis
    by (simp add: MyElement_element_def validError_msg_def partsError_msg_def)
qed

theorem second_element_error_witness:
  "MyElement_element div_heap 0 ''span'' =
     Inl (Error ''Element, id and pseudo-element should not occur more then one time inside the selector'')
   \<and> MyElement_element div_heap 3 ''span'' =
     Inl (Error ''Selector parts should be arranged in the following order: element, id, class, attribute, pseudo-class, pseudo-element'')"
  using second_element_error[OF reachable_div_heap, of 0 "''span''"]
    second_element_error[OF reachable_div_heap, of 3 "''span''"]
  by (simp add: chain_kinds_def chain_div_heap div_heap_nth)

subsection \<open>Order and uniqueness along a chain\<close>

text \<open>
  C5. In every heap the builder can make, the kinds along the chain of every
  fragment are in non-decreasing order of rank, and each of the kinds element, id
  and pseudo-element occurs at most once in it, although a chaining call looks at
  the kind of the one fragment it is called on only.
\<close>

theorem chain_invariants:
  assumes "reachable h" and "a < length h"
  shows "sorted (map rank (chain_kinds h a))
         \<and> count_list (chain_kinds h a) K_elem \<le> 1
         \<and> count_list (chain_kinds h a) K_id \<le> 1
         \<and> count_list (chain_kinds h a) K_pseudoElement \<le> 1"
  using chain_kinds_ordered[OF reachable_heap_ok[OF assms(1)] assms(2)]
  by (simp add: non_repeatable_def)

theorem chain_invariants_witness:
  "chain_kinds div_heap 3 = [K_elem, K_id, K_class, K_class]
   \<and> sorted (map rank (chain_kinds div_heap 3))
   \<and> count_list (chain_kinds div_heap 3) K_elem \<le> 1
   \<and> count_list (chain_kinds div_heap 3) K_id \<le> 1
   \<and> count_list (chain_kinds div_heap 3) K_pseudoElement \<le> 1"
  using chain_invariants[OF reachable_div_heap, of 3]
  by (simp add: chain_kinds_def chain_div_heap div_heap_nth)

subsection \<open>The element method of a fragment\<close>

text \<open>
  C10. On every fragment of a heap the builder can make, the method \<open>element\<close>
  throws: the duplicate-kind message when the fragment is of kind element, the
  ordering message otherwise. Its result does not depend on the argument. No
  chaining call returns a fragment of kind element, a fragment of kind element has
  no parent and is the whole of its chain, and no fragment of a chain after the
  first one is of kind element; so an element fragment is made by the facade's
  \<open>element(value)\<close> and stands first.
\<close>

theorem element_method_always_throws:
  assumes "reachable h" and "this < length h"
  shows "MyElement_element h this v =
           Inl (Error (if type_f (h ! this) = K_elem
                 then ''Element, id and pseudo-element should not occur more then one time inside the selector''
                 else ''Selector parts should be arranged in the following order: element, id, class, attribute, pseudo-class, pseudo-element''))
         \<and> (\<forall>v'. MyElement_element h this v' = MyElement_element h this v)
         \<and> (\<forall>k w h' c. chain_call k h this w = Inr (h', c) \<longrightarrow>
                k \<noteq> K_elem \<and> type_f (h' ! c) = k)
         \<and> (type_f (h ! this) = K_elem \<longrightarrow> parent (h ! this) = None \<and> chain h this = [this])
         \<and> (\<forall>i. Suc i < length (chain h this) \<longrightarrow>
                type_f (h ! (chain h this ! Suc i)) \<noteq> K_elem)"
proof -
  from assms(1) have ok: "heap_ok h" by (rule reachable_heap_ok)
  from obj_okD(3,4)[OF ok assms(2)] assms(2)
  have throws: "MyElement_element h this v =
     Inl (Error (if type_f (h ! this) = K_elem
                 then ''Element, id and pseudo-element should not occur more then one time inside the selector''
                 else ''Selector parts should be arranged in the following order: element, id, class, attribute, pseudo-class, pseudo-element''))"
    by (simp add: MyElement_element_def validError_msg_def partsError_msg_def)
  have ignores: "\<forall>v'. MyElement_element h this v' = MyElement_element h this v"
    by (simp add: MyElement_element_def)
  have no_parent: "parent (h ! b) = None" if "b < length h" "type_f (h ! b) = K_elem" for b
  proof (cases "parent (h ! b)")
    case (Some p)
    from parent_okD(2,3)[OF ok that(1) Some] that(2)
    have "rank (type_f (h ! p)) = 0" "type_f (h ! p) \<noteq> K_elem"
      by (simp_all add: non_repeatable_def)
    then show ?thesis by (cases "type_f (h ! p)") simp_all
  qed simp
  note shape = chain_shape[OF ok assms(2)]
  have later: "\<forall>i. Suc i < length (chain h this) \<longrightarrow>
      type_f (h ! (chain h this ! Suc i)) \<noteq> K_elem"
  proof (intro allI impI notI)
    fix i assume i: "Suc i < length (chain h this)"
      and e: "type_f (h ! (chain h this ! Suc i)) = K_elem"
    from i have "chain h this ! Suc i \<in> set (chain h this)" by simp
    with shape have "chain h this ! Suc i \<le> this" by blast
    with assms(2) have "chain h this ! Suc i < length h" by simp
    from no_parent[OF this e] shape i show False by simp
  qed
  have first: "type_f (h ! this) = K_elem \<longrightarrow> parent (h ! this) = None \<and> chain h this = [this]"
    using no_parent[OF assms(2)] by (auto simp: chain_unfold[OF ok assms(2)])
  have made: "\<forall>k w h' c. chain_call k h this w = Inr (h', c) \<longrightarrow>
           k \<noteq> K_elem \<and> type_f (h' ! c) = k"
  proof (intro allI impI)
    fix k w h' c assume call: "chain_call k h this w = Inr (h', c)"
    then have k: "k \<noteq> K_elem" by (auto simp: MyElement_element_def split: if_splits)
    from chain_call_Inr[OF call] have "new_child h this w k = (h', c)" by simp
    with new_child_eq[OF assms(2), of w k]
    have "h' = fst (new_child h this w k)" "c = length h" by simp_all
    with assms(2) have "type_f (h' ! c) = k" by (simp add: new_child_new)
    with k show "k \<noteq> K_elem \<and> type_f (h' ! c) = k" by simp
  qed
  from throws ignores made first later show ?thesis by (intro conjI)
qed

theorem element_method_always_throws_witness:
  "MyElement_element div_heap 0 ''span'' =
     Inl (Error ''Element, id and pseudo-element should not occur more then one time inside the selector'')
   \<and> MyElement_element div_heap 2 ''span'' =
     Inl (Error ''Selector parts should be arranged in the following order: element, id, class, attribute, pseudo-class, pseudo-element'')
   \<and> parent (div_heap ! 0) = None"
  using element_method_always_throws[OF reachable_div_heap, of 0 "''span''", THEN conjunct1]
    element_method_always_throws[OF reachable_div_heap, of 2 "''span''", THEN conjunct1]
    element_method_always_throws[OF reachable_div_heap, of 0 "''span''",
      THEN conjunct2, THEN conjunct2, THEN conjunct2, THEN conjunct1]
  by (simp add: div_heap_nth)

subsection \<open>Rendering a combined selector\<close>

text \<open>
  C4. When \<open>left.stringify()\<close> and \<open>right.stringify()\<close> return \<open>sl\<close> and \<open>sr\<close>,
  \<open>stringify()\<close> of \<open>combine(left, combinator, right)\<close> returns \<open>sl\<close>, one space, the
  combinator as it is, one space, \<open>sr\<close>. With the combinator \<open>' '\<close> three spaces
  stand between the two sides. A \<open>combine\<close> nested as the right or as the left side
  is rendered by the same rule, the parts in order from left to right.
\<close>

theorem combined_rendering:
  assumes "stringify h left = Some sl" and "stringify h right = Some sr"
  shows "stringify h (cssSelectorBuilder_combine left combinator right)
           = Some (sl @ '' '' @ combinator @ '' '' @ sr)
         \<and> stringify h (cssSelectorBuilder_combine left '' '' right) = Some (sl @ ''   '' @ sr)
         \<and> (\<forall>c2 right2 sr2. stringify h right2 = Some sr2 \<longrightarrow>
              stringify h (cssSelectorBuilder_combine left combinator
                             (cssSelectorBuilder_combine right c2 right2))
                = Some (sl @ '' '' @ combinator @ '' '' @ (sr @ '' '' @ c2 @ '' '' @ sr2))
              \<and> stringify h (cssSelectorBuilder_combine
                               (cssSelectorBuilder_combine left combinator right) c2 right2)
                = Some ((sl @ '' '' @ combinator @ '' '' @ sr) @ '' '' @ c2 @ '' '' @ sr2))"
  using assms by (simp add: cssSelectorBuilder_combine_def)

theorem combined_rendering_witness:
  "stringify rows_heap (cssSelectorBuilder_combine (Fragment 1) '' '' (Fragment 3))
     = Some ''tr:nth-of-type(even)   td:nth-of-type(even)''
   \<and> stringify rows_heap (cssSelectorBuilder_combine (Fragment 1) ''+'' (Fragment 3))
     = Some ''tr:nth-of-type(even) + td:nth-of-type(even)''"
  using combined_rendering[of rows_heap "Fragment 1" "''tr:nth-of-type(even)''"
      "Fragment 3" "''td:nth-of-type(even)''" "'' ''", THEN conjunct1]
    combined_rendering[of rows_heap "Fragment 1" "''tr:nth-of-type(even)''"
      "Fragment 3" "''td:nth-of-type(even)''" "''+''", THEN conjunct1]
  by (simp add: stringify_rows_heap)

subsection \<open>The failures of the builder\<close>

text \<open>
  C6. \<open>combine\<close> never fails for any combinator string and renders it as it is,
  \<open>stringify()\<close> never fails on a well-formed fragment chain or combined selector,
  and the two validation errors of the chaining calls are the only failures of the
  builder. The exported builder has one more member, its own \<open>stringify\<close>
  (line 198), and every call of it fails with a \<open>TypeError\<close>, which is neither of
  the two validation errors. The member next to it, the \<open>stringify\<close> closure that
  \<open>combine\<close> returns (line 195), renders through the selectors it has captured and
  does not touch \<open>this\<close>.
\<close>

theorem facade_stringify_throws:
  "cssSelectorBuilder_stringify h = Inl TypeError
   \<and> cssSelectorBuilder_stringify h \<noteq> Inl (Error ''Element, id and pseudo-element should not occur more then one time inside the selector'')
   \<and> cssSelectorBuilder_stringify h \<noteq> Inl (Error ''Selector parts should be arranged in the following order: element, id, class, attribute, pseudo-class, pseudo-element'')"
  by (simp add: cssSelectorBuilder_stringify_def module_this_def)

text \<open>
  The other operations behave as C6 says. In every heap the builder can make:
  \<open>combine\<close> returns a combined selector for any combinator string, and the selector
  renders as the left rendering, a space, that string unchanged, a space, the right
  rendering; \<open>stringify()\<close> returns a string on every fragment and on every selector
  built from fragments of the heap by \<open>combine\<close>; each of the six start functions
  returns a fragment; and a chaining call on a fragment either returns a fragment or
  throws an \<open>Error\<close> with one of the two validation messages.
\<close>

lemma other_operations_failures:
  assumes "reachable h"
  shows "(\<forall>l c r. selector_in h l \<and> selector_in h r \<longrightarrow>
            selector_in h (cssSelectorBuilder_combine l c r)
            \<and> (\<exists>sl sr. stringify h l = Some sl \<and> stringify h r = Some sr
                  \<and> stringify h (cssSelectorBuilder_combine l c r)
                      = Some (sl @ '' '' @ c @ '' '' @ sr)))
         \<and> (\<forall>s. selector_in h s \<longrightarrow> (\<exists>str. stringify h s = Some str))
         \<and> (\<forall>a<length h. \<exists>str. MyElement_stringify h a = Some str)
         \<and> (\<forall>k v. reachable (fst (start_call k h v))
                \<and> snd (start_call k h v) < length (fst (start_call k h v)))
         \<and> (\<forall>k this v. this < length h \<longrightarrow>
              (\<exists>h' c. chain_call k h this v = Inr (h', c) \<and> reachable h' \<and> c < length h')
              \<or> chain_call k h this v = Inl (Error ''Element, id and pseudo-element should not occur more then one time inside the selector'')
              \<or> chain_call k h this v = Inl (Error ''Selector parts should be arranged in the following order: element, id, class, attribute, pseudo-class, pseudo-element''))"
proof -
  from assms have ok: "heap_ok h" by (rule reachable_heap_ok)
  have comb: "selector_in h (cssSelectorBuilder_combine l c r)
            \<and> (\<exists>sl sr. stringify h l = Some sl \<and> stringify h r = Some sr
                  \<and> stringify h (cssSelectorBuilder_combine l c r)
                      = Some (sl @ '' '' @ c @ '' '' @ sr))"
    if "selector_in h l \<and> selector_in h r" for l c r
  proof -
    from that stringify_total[OF ok] obtain sl sr
      where "stringify h l = Some sl" "stringify h r = Some sr" by blast
    with that show ?thesis by (simp add: cssSelectorBuilder_combine_def)
  qed
  have str: "\<forall>s. selector_in h s \<longrightarrow> (\<exists>str. stringify h s = Some str)"
    using stringify_total[OF ok] by blast
  have frag: "\<forall>a<length h. \<exists>str. MyElement_stringify h a = Some str"
    using stringify_closed_form[OF ok] by blast
  have start: "\<forall>k v. reachable (fst (start_call k h v))
                \<and> snd (start_call k h v) < length (fst (start_call k h v))"
    using reachable.start[OF assms] by (simp add: start_call_eq)
  have chain: "(\<exists>h' c. chain_call k h this v = Inr (h', c) \<and> reachable h' \<and> c < length h')
      \<or> chain_call k h this v = Inl (Error validError_msg)
      \<or> chain_call k h this v = Inl (Error partsError_msg)"
    if lt: "this < length h" for k this v
  proof -
    from chain_call_results[OF ok lt, of k v]
    consider "chain_call k h this v = Inr (new_child h this v k)"
      | "chain_call k h this v = Inl (Error validError_msg)"
      | "chain_call k h this v = Inl (Error partsError_msg)"
      by blast
    then show ?thesis
    proof cases
      case 1
      then have call: "chain_call k h this v
          = Inr (fst (new_child h this v k), snd (new_child h this v k))" by simp
      from assms call have "reachable (fst (new_child h this v k))" by (rule reachable.chain)
      moreover have "snd (new_child h this v k) < length (fst (new_child h this v k))"
        by (simp add: new_child_new[OF lt])
      ultimately show ?thesis using call by blast
    qed simp_all
  qed
  from comb str frag start chain show ?thesis
    unfolding validError_msg_def partsError_msg_def by (intro conjI) blast+
qed

lemma other_operations_failures_example:
  "stringify rows_heap (cssSelectorBuilder_combine (Fragment 1) ''not a combinator''
              (Fragment 3)) = Some ''tr:nth-of-type(even) not a combinator td:nth-of-type(even)''
   \<and> (\<exists>str. MyElement_stringify rows_heap 3 = Some str)
   \<and> reachable (fst (start_call K_id rows_heap ''data''))"
proof -
  note t = other_operations_failures[OF reachable_rows_heap]
  have "selector_in rows_heap (Fragment 1) \<and> selector_in rows_heap (Fragment 3)"
    by (simp add: rows_heap_nth)
  with t have "\<exists>sl sr. stringify rows_heap (Fragment 1) = Some sl
      \<and> stringify rows_heap (Fragment 3) = Some sr
      \<and> stringify rows_heap (cssSelectorBuilder_combine (Fragment 1)
      ''not a combinator'' (Fragment 3)) = Some (sl @ '' '' @ ''not a combinator'' @ '' '' @ sr)"
    by blast
  then have "stringify rows_heap (cssSelectorBuilder_combine (Fragment 1) ''not a combinator''
      (Fragment 3)) = Some ''tr:nth-of-type(even) not a combinator td:nth-of-type(even)''"
    by (auto simp: stringify_rows_heap)
  moreover from t have "\<exists>str. MyElement_stringify rows_heap 3 = Some str"
    by (simp add: rows_heap_nth)
  moreover from t have "reachable (fst (start_call K_id rows_heap ''data''))" by blast
  ultimately show ?thesis by blast
qed

subsection \<open>What a call changes\<close>

text \<open>
  C7, as stated: no fragment is changed after its construction by any later builder
  or chaining call. It fails on \<open>element('div').id('main')\<close>: the \<open>child\<close>
  field of the element fragment is \<open>{}\<close> after \<open>element('div')\<close> and refers to the
  id fragment after \<open>.id('main')\<close>.
\<close>

theorem chaining_mutates_counterexample:
  "child (fst (cssSelectorBuilder_element [] ''div'') ! 0) = None
   \<and> MyElement_id (fst (cssSelectorBuilder_element [] ''div'')) 0 ''main'' =
       Inr ([(MyElement_constructor ''div'' K_elem None)\<lparr>child := Some 1\<rparr>,
             MyElement_constructor ''main'' K_id (Some 0)], 1)
   \<and> child ([(MyElement_constructor ''div'' K_elem None)\<lparr>child := Some 1\<rparr>,
             MyElement_constructor ''main'' K_id (Some 0)] ! 0) = Some 1
   \<and> [(MyElement_constructor ''div'' K_elem None)\<lparr>child := Some 1\<rparr>,
             MyElement_constructor ''main'' K_id (Some 0)] ! 0
       \<noteq> fst (cssSelectorBuilder_element [] ''div'') ! 0"
  by (simp add: call_defs MyElement_constructor_def)


text \<open>
  C7, amended: a chaining call that returns has allocated one object and assigned it
  to the \<open>child\<close> field of the fragment it was called on; that fragment is otherwise
  as before, and every other fragment is unchanged. A start function allocates one
  object and changes none. (A chaining call that throws, \<open>combine\<close> and
  \<open>stringify\<close> return no heap: they change nothing.)
\<close>

theorem only_child_is_assigned:
  "(\<forall>h' c. chain_call k h this v = Inr (h', c) \<longrightarrow>
       this < length h \<and> c = length h \<and> length h' = Suc (length h)
       \<and> h' ! this = (h ! this)\<lparr>child := Some c\<rparr>
       \<and> (\<forall>a<length h. a \<noteq> this \<longrightarrow> h' ! a = h ! a))
   \<and> length (fst (start_call k h v)) = Suc (length h)
   \<and> (\<forall>a<length h. fst (start_call k h v) ! a = h ! a)"
proof -
  have "this < length h \<and> c = length h \<and> length h' = Suc (length h)
       \<and> h' ! this = (h ! this)\<lparr>child := Some c\<rparr>
       \<and> (\<forall>a<length h. a \<noteq> this \<longrightarrow> h' ! a = h ! a)"
    if call: "chain_call k h this v = Inr (h', c)" for h' c
  proof -
    from chain_call_Inr[OF call] have lt: "this < length h"
      and nc: "new_child h this v k = (h', c)" by simp_all
    from nc new_child_eq[OF lt, of v k] lt show ?thesis
      by (auto simp: nth_append nth_list_update)
  qed
  moreover have "length (fst (start_call k h v)) = Suc (length h)"
    by (simp add: start_call_eq)
  moreover have "\<forall>a<length h. fst (start_call k h v) ! a = h ! a"
    by (simp add: start_call_eq nth_append)
  ultimately show ?thesis by blast
qed

theorem only_child_is_assigned_witness:
  "chain_call K_attr div_heap 3 ''href'' =
     Inr (fst (new_child div_heap 3 ''href'' K_attr), 4)
   \<and> fst (new_child div_heap 3 ''href'' K_attr) ! 3 = (div_heap ! 3)\<lparr>child := Some 4\<rparr>
   \<and> fst (new_child div_heap 3 ''href'' K_attr) ! 2 = div_heap ! 2
   \<and> fst (start_call K_elem div_heap ''table'') ! 3 = div_heap ! 3"
proof -
  have call: "chain_call K_attr div_heap 3 ''href'' =
     Inr (fst (new_child div_heap 3 ''href'' K_attr), 4)"
    by (simp add: MyElement_attr_def div_heap_nth new_child_eq)
  note t = only_child_is_assigned[of K_attr div_heap 3 "''href''"]
  from t call have "fst (new_child div_heap 3 ''href'' K_attr) ! 3
      = (div_heap ! 3)\<lparr>child := Some 4\<rparr>" by blast
  moreover from t call have "\<forall>a<length div_heap. a \<noteq> 3 \<longrightarrow>
      fst (new_child div_heap 3 ''href'' K_attr) ! a = div_heap ! a" by blast
  then have "fst (new_child div_heap 3 ''href'' K_attr) ! 2 = div_heap ! 2"
    by (simp add: div_heap_nth(1))
  moreover from only_child_is_assigned[of K_elem div_heap 3 "''table''"]
  have "fst (start_call K_elem div_heap ''table'') ! 3 = div_heap ! 3"
    by (simp add: div_heap_nth(1))
  ultimately show ?thesis using call by blast
qed

subsection \<open>Branching from a fragment\<close>

text \<open>
  C9. Let a chaining call on a fragment \<open>f\<close> of a heap the builder can make return
  \<open>c1\<close>. Then \<open>c1\<close> is a new object, the \<open>child\<close> field of \<open>f\<close> refers to it,
  \<open>stringify()\<close> of \<open>f\<close> and of every other fragment that existed returns what it
  returned before, and \<open>stringify()\<close> of \<open>c1\<close> is that of \<open>f\<close> followed by the
  rendering of the new fragment. After any second chaining call on \<open>f\<close> that returns
  \<open>c2\<close>, the \<open>child\<close> field of \<open>f\<close> refers to \<open>c2\<close>, and still \<open>stringify()\<close> of
  \<open>f\<close> and of \<open>c1\<close> are as before, and \<open>stringify()\<close> of \<open>c2\<close> is that of \<open>f\<close>
  followed by the rendering of the second new fragment. The two kinds and values are
  arbitrary, so the order of the two calls does not matter to the strings.
\<close>

theorem branching_keeps_renderings:
  assumes "reachable h" and "chain_call k1 h f v1 = Inr (h1, c1)"
  shows "c1 = length h \<and> child (h1 ! f) = Some c1
     \<and> (\<forall>a<length h. MyElement_stringify h1 a = MyElement_stringify h a)
     \<and> (\<exists>s. MyElement_stringify h f = Some s
           \<and> MyElement_stringify h1 c1 = Some (s @ prefix_of k1 @ v1 @ suffix_of k1))
     \<and> (\<forall>k2 v2 h2 c2. chain_call k2 h1 f v2 = Inr (h2, c2) \<longrightarrow>
           c2 \<noteq> c1 \<and> child (h2 ! f) = Some c2
           \<and> MyElement_stringify h2 f = MyElement_stringify h f
           \<and> MyElement_stringify h2 c1 = MyElement_stringify h1 c1
           \<and> (\<exists>s. MyElement_stringify h f = Some s
                 \<and> MyElement_stringify h2 c2 = Some (s @ prefix_of k2 @ v2 @ suffix_of k2)))"
proof -
  from assms(1) have ok: "heap_ok h" by (rule reachable_heap_ok)
  note one = chain_call_render[OF ok assms(2)]
  from assms have "reachable h1" by (rule reachable.chain)
  then have ok1: "heap_ok h1" by (rule reachable_heap_ok)
  have two: "c2 \<noteq> c1 \<and> child (h2 ! f) = Some c2
           \<and> MyElement_stringify h2 f = MyElement_stringify h f
           \<and> MyElement_stringify h2 c1 = MyElement_stringify h1 c1
           \<and> (\<exists>s. MyElement_stringify h f = Some s
                 \<and> MyElement_stringify h2 c2 = Some (s @ prefix_of k2 @ v2 @ suffix_of k2))"
    if call2: "chain_call k2 h1 f v2 = Inr (h2, c2)" for k2 v2 h2 c2
  proof -
    note nxt = chain_call_render[OF ok1 call2]
    from one nxt have "c2 \<noteq> c1" by simp
    moreover from nxt have "child (h2 ! f) = Some c2" by simp
    moreover from one nxt have "MyElement_stringify h2 f = MyElement_stringify h f" by simp
    moreover from one nxt have "MyElement_stringify h2 c1 = MyElement_stringify h1 c1" by simp
    moreover from one nxt have "\<exists>s. MyElement_stringify h f = Some s
        \<and> MyElement_stringify h2 c2 = Some (s @ prefix_of k2 @ v2 @ suffix_of k2)" by auto
    ultimately show ?thesis by blast
  qed
  from one two show ?thesis by blast
qed

theorem branching_keeps_renderings_witness:
  "chain_call K_id [MyElement_constructor ''div'' K_elem None] 0 ''main''
     = Inr ([(MyElement_constructor ''div'' K_elem None)\<lparr>child := Some 1\<rparr>,
             MyElement_constructor ''main'' K_id (Some 0)], 1)
   \<and> chain_call K_class [(MyElement_constructor ''div'' K_elem None)\<lparr>child := Some 1\<rparr>,
             MyElement_constructor ''main'' K_id (Some 0)] 0 ''container''
     = Inr ([(MyElement_constructor ''div'' K_elem None)\<lparr>child := Some 2\<rparr>,
             MyElement_constructor ''main'' K_id (Some 0),
             MyElement_constructor ''container'' K_class (Some 0)], 2)
   \<and> MyElement_stringify [(MyElement_constructor ''div'' K_elem None)\<lparr>child := Some 2\<rparr>,
             MyElement_constructor ''main'' K_id (Some 0),
             MyElement_constructor ''container'' K_class (Some 0)] 0 = Some ''div''
   \<and> MyElement_stringify [(MyElement_constructor ''div'' K_elem None)\<lparr>child := Some 2\<rparr>,
             MyElement_constructor ''main'' K_id (Some 0),
             MyElement_constructor ''container'' K_class (Some 0)] 1 = Some ''div#main''
   \<and> MyElement_stringify [(MyElement_constructor ''div'' K_elem None)\<lparr>child := Some 2\<rparr>,
             MyElement_constructor ''main'' K_id (Some 0),
             MyElement_constructor ''container'' K_class (Some 0)] 2 = Some ''div.container''"
proof -
  let ?H0 = "[MyElement_constructor ''div'' K_elem None]"
  let ?H1 = "[(MyElement_constructor ''div'' K_elem None)\<lparr>child := Some 1\<rparr>,
             MyElement_constructor ''main'' K_id (Some 0)]"
  let ?H2 = "[(MyElement_constructor ''div'' K_elem None)\<lparr>child := Some 2\<rparr>,
             MyElement_constructor ''main'' K_id (Some 0),
             MyElement_constructor ''container'' K_class (Some 0)]"
  have r: "reachable ?H0"
    using reachable_start[OF reachable.init, of "''div''" K_elem] by simp
  have call1: "chain_call K_id ?H0 0 ''main'' = Inr (?H1, 1)"
    by (simp add: MyElement_id_def new_child_eq)
  have call2: "chain_call K_class ?H1 0 ''container'' = Inr (?H2, 2)"
    by (simp add: MyElement_class_def new_child_eq)
  note t = branching_keeps_renderings[OF r call1]
  from t call2 have "MyElement_stringify ?H2 0 = MyElement_stringify ?H0 0"
    and "MyElement_stringify ?H2 1 = MyElement_stringify ?H1 1"
    by blast+
  moreover have "MyElement_stringify ?H0 0 = Some ''div''"
    and "MyElement_stringify ?H1 1 = Some ''div#main''"
    and "MyElement_stringify ?H2 2 = Some ''div.container''"
    by (simp_all add: stringify_unfold)
  ultimately show ?thesis using call1 call2 by simp
qed

end
